theory Spec2Isabelle
  imports Main "HOL-Library.Multiset" "HOL-Library.AList"
begin

section \<open>The path table of the webhook server\<close>

text \<open>
  The webhook server keeps two SQLite tables. \<open>ivr_paths\<close> holds one row per call
  (\<open>call_sid TEXT UNIQUE NOT NULL\<close>); a nullable \<open>TEXT\<close> column is a \<open>string option\<close>
  with \<open>None\<close> for SQL \<open>NULL\<close>. The column \<open>id\<close> is called \<open>row_id\<close> here, and
  \<open>timestamp\<close> (\<open>DATETIME DEFAULT CURRENT_TIMESTAMP\<close>) is a number of seconds.
  A table is the list of its rows in insertion order. Database calls are taken to
  succeed: a failing connection is outside this model.
\<close>

record ivr_path_row =
  row_id :: nat
  call_sid :: string
  from_number :: "string option"
  to_number :: "string option"
  language_choice :: "string option"
  state_choice :: "string option"
  service_choice :: "string option"
  model_choice :: "string option"
  hp_choice :: "string option"
  complete_path :: "string option"
  timestamp :: nat

type_synonym path_table = "ivr_path_row list"

text \<open>Python's \<open>s.strip(c)\<close> for a one-character argument: every leading and every
  trailing occurrence of the character goes.\<close>

definition py_strip :: "char \<Rightarrow> string \<Rightarrow> string" where
  "py_strip c s = rev (dropWhile (\<lambda>x. x = c) (rev (dropWhile (\<lambda>x. x = c) s)))"

text \<open>Python's \<open>sep.join(xs)\<close>.\<close>

fun join :: "string \<Rightarrow> string list \<Rightarrow> string" where
  "join sep [] = []"
| "join sep [x] = x"
| "join sep (x # y # ys) = x @ sep @ join sep (y # ys)"

text \<open>\<open>if digit_input: digit_input = digit_input.strip('"').strip("'")\<close>: \<open>None\<close> and the
  empty string are falsy and stay as they are.\<close>

definition clean_digit :: "string option \<Rightarrow> string option" where
  "clean_digit digit_input =
     (case digit_input of
        None \<Rightarrow> None
      | Some s \<Rightarrow> if s = [] then Some s
                 else Some (py_strip (CHR 0x27) (py_strip (CHR 0x22) s)))"

text \<open>\<open>SELECT * FROM ivr_paths WHERE call_sid = ?\<close> followed by \<open>fetchone()\<close>.\<close>

definition select_path :: "string \<Rightarrow> path_table \<Rightarrow> ivr_path_row option" where
  "select_path sid tbl = find (\<lambda>r. call_sid r = sid) tbl"

text \<open>\<open>UPDATE ivr_paths SET ... WHERE call_sid = ?\<close>: every matching row is rewritten.\<close>

definition sql_update :: "(ivr_path_row \<Rightarrow> ivr_path_row) \<Rightarrow> string \<Rightarrow> path_table \<Rightarrow> path_table" where
  "sql_update f sid tbl = map (\<lambda>r. if call_sid r = sid then f r else r) tbl"

text \<open>\<open>INTEGER PRIMARY KEY AUTOINCREMENT\<close>: one more than the largest id in use (the
  repository never deletes a row).\<close>

definition next_id :: "path_table \<Rightarrow> nat" where
  "next_id tbl = Suc (fold max (map row_id tbl) 0)"

definition coalesce :: "string option \<Rightarrow> string" where
  "coalesce v = (case v of None \<Rightarrow> [] | Some s \<Rightarrow> s)"

text \<open>The right-hand side of the last \<open>UPDATE\<close> of \<open>update_ivr_path\<close>:
  \<open>COALESCE(language_choice, '') || '-' || ... || COALESCE(hp_choice, '')\<close>.\<close>

definition path_expr :: "ivr_path_row \<Rightarrow> string" where
  "path_expr r =
     coalesce (language_choice r) @ ''-'' @
     coalesce (state_choice r) @ ''-'' @
     coalesce (service_choice r) @ ''-'' @
     coalesce (model_choice r) @ ''-'' @
     coalesce (hp_choice r)"

text \<open>\<open>update_ivr_path(call_sid, step_name, digit_input, from_number, to_number)\<close> of
  \<open>webhook_server.py\<close>. The table is passed in and returned; \<open>now\<close> is the value of
  \<open>CURRENT_TIMESTAMP\<close> at the call. The \<open>INSERT\<close> names eight columns, so \<open>id\<close> and
  \<open>timestamp\<close> take their defaults and \<open>complete_path\<close> starts as \<open>NULL\<close>.\<close>

definition update_ivr_path ::
  "string \<Rightarrow> string \<Rightarrow> string option \<Rightarrow> string option \<Rightarrow> string option \<Rightarrow> nat \<Rightarrow> path_table \<Rightarrow> path_table" where
  "update_ivr_path sid step_name digit_input from_no to_no now tbl =
     (let digit = clean_digit digit_input;
          existing = select_path sid tbl;
          tbl1 =
            (case existing of
               Some _ \<Rightarrow>
                 if step_name = ''language'' then sql_update (\<lambda>r. r\<lparr>language_choice := digit\<rparr>) sid tbl
                 else if step_name = ''state'' then sql_update (\<lambda>r. r\<lparr>state_choice := digit\<rparr>) sid tbl
                 else if step_name = ''service'' then sql_update (\<lambda>r. r\<lparr>service_choice := digit\<rparr>) sid tbl
                 else if step_name = ''model'' then sql_update (\<lambda>r. r\<lparr>model_choice := digit\<rparr>) sid tbl
                 else if step_name = ''hp'' then sql_update (\<lambda>r. r\<lparr>hp_choice := digit\<rparr>) sid tbl
                 else tbl
             | None \<Rightarrow>
                 tbl @
                 [\<lparr>row_id = next_id tbl, call_sid = sid,
                   from_number = from_no, to_number = to_no,
                   language_choice = (if step_name = ''language'' then digit else None),
                   state_choice = (if step_name = ''state'' then digit else None),
                   service_choice = (if step_name = ''service'' then digit else None),
                   model_choice = (if step_name = ''model'' then digit else None),
                   hp_choice = (if step_name = ''hp'' then digit else None),
                   complete_path = None, timestamp = now\<rparr>])
      in sql_update (\<lambda>r. r\<lparr>complete_path := Some (path_expr r)\<rparr>) sid tbl1)"

subsection \<open>Step events and their sequences\<close>

text \<open>One call of \<open>update_ivr_path\<close> with its arguments and the clock reading.\<close>

record step_event =
  ev_call_sid :: string
  ev_step :: string
  ev_digit :: "string option"
  ev_from :: "string option"
  ev_to :: "string option"
  ev_time :: nat

definition upsert_step :: "step_event \<Rightarrow> path_table \<Rightarrow> path_table" where
  "upsert_step e tbl =
     update_ivr_path (ev_call_sid e) (ev_step e) (ev_digit e) (ev_from e) (ev_to e) (ev_time e) tbl"

text \<open>The events of a list applied one after the other, the head first.\<close>

definition apply_events :: "step_event list \<Rightarrow> path_table \<Rightarrow> path_table" where
  "apply_events es tbl = fold upsert_step es tbl"

subsection \<open>The step definition, as the specification words it\<close>

text \<open>The five steps in their fixed order, and the choice a record holds for a step.\<close>

definition step_names :: "string list" where
  "step_names = [''language'', ''state'', ''service'', ''model'', ''hp'']"

definition choice :: "string \<Rightarrow> ivr_path_row \<Rightarrow> string option" where
  "choice step r =
     (if step = ''language'' then language_choice r
      else if step = ''state'' then state_choice r
      else if step = ''service'' then service_choice r
      else if step = ''model'' then model_choice r
      else if step = ''hp'' then hp_choice r
      else None)"

text \<open>The join of the five choices in step order, an unset choice as the empty segment.\<close>

definition join_of_choices :: "ivr_path_row \<Rightarrow> string" where
  "join_of_choices r = join ''-'' (map (\<lambda>s. coalesce (choice s r)) step_names)"

section \<open>The webhook endpoint\<close>

text \<open>The raw event log \<open>ivr_inputs\<close>, one row per request, and the two tables
  together.\<close>

record ivr_input_row =
  in_id :: nat
  in_call_sid :: string
  in_from_number :: "string option"
  in_to_number :: "string option"
  in_step_name :: string
  in_digit_input :: "string option"
  in_timestamp :: nat
  in_exophone :: "string option"
  in_caller_circle :: "string option"

record store =
  ivr_inputs :: "ivr_input_row list"
  ivr_paths :: path_table

text \<open>\<open>store_ivr_input\<close>: one \<open>INSERT\<close> into the event log, after the same cleaning
  of the digit.\<close>

definition store_ivr_input ::
  "string \<Rightarrow> string \<Rightarrow> string option \<Rightarrow> string option \<Rightarrow> string option \<Rightarrow>
   string option \<Rightarrow> string option \<Rightarrow> nat \<Rightarrow> ivr_input_row list \<Rightarrow> ivr_input_row list" where
  "store_ivr_input sid step_name digit_input from_no to_no exophone caller_circle now tbl =
     (let digit = clean_digit digit_input
      in tbl @
         [\<lparr>in_id = Suc (fold max (map in_id tbl) 0), in_call_sid = sid,
           in_from_number = from_no, in_to_number = to_no, in_step_name = step_name,
           in_digit_input = digit, in_timestamp = now,
           in_exophone = exophone, in_caller_circle = caller_circle\<rparr>])"

text \<open>A Flask request as far as the handler reads it: the query string (\<open>request.args\<close>)
  and the form body (\<open>request.form\<close>), whose \<open>get\<close> gives \<open>None\<close> for a missing key.\<close>

record request =
  args :: "string \<Rightarrow> string option"
  form :: "string \<Rightarrow> string option"

text \<open>Python's \<open>a or b\<close> on optional strings: \<open>a\<close> when it is truthy (neither \<open>None\<close>
  nor empty), else \<open>b\<close>.\<close>

definition py_or :: "string option \<Rightarrow> string option \<Rightarrow> string option" where
  "py_or a b = (case a of None \<Rightarrow> b | Some s \<Rightarrow> if s = [] then b else a)"

text \<open>The two JSON bodies the handler returns on the paths modelled here.\<close>

datatype json_body =
  ErrorBody string
| RecordedBody string string "string option"

text \<open>\<open>ivr_webhook(step_name)\<close>: the route \<open>/webhook/ivr/<step_name>\<close>. It returns the
  store, the body and the HTTP status. \<open>now_input\<close> and \<open>now_path\<close> are the clock readings
  of the two inserts. The \<open>except\<close> branch (status 500) is reached only when a database
  call raises, which this model leaves out.\<close>

definition ivr_webhook ::
  "string \<Rightarrow> request \<Rightarrow> nat \<Rightarrow> nat \<Rightarrow> store \<Rightarrow> store \<times> json_body \<times> nat" where
  "ivr_webhook step_name req now_input now_path st =
     (let call_sid = py_or (args req ''CallSid'') (form req ''CallSid'');
          digit_input = py_or (args req ''digits'') (form req ''digits'');
          from_number = py_or (args req ''From'') (form req ''From'');
          to_number = py_or (args req ''To'') (form req ''To'');
          exophone = py_or (args req ''To'') (form req ''To'');
          caller_circle = py_or (args req ''CallerCircle'') (form req ''CallerCircle'')
      in case call_sid of
           None \<Rightarrow> (st, ErrorBody ''CallSid is required'', 400)
         | Some sid \<Rightarrow>
             if sid = [] then (st, ErrorBody ''CallSid is required'', 400)
             else
               (let st1 = st\<lparr>ivr_inputs :=
                            store_ivr_input sid step_name digit_input from_number to_number
                              exophone caller_circle now_input (ivr_inputs st)\<rparr>;
                    st2 = st1\<lparr>ivr_paths :=
                            update_ivr_path sid step_name digit_input from_number to_number
                              now_path (ivr_paths st1)\<rparr>
                in (st2, RecordedBody (''IVR input recorded for '' @ step_name) sid digit_input, 200)))"

section \<open>The path decoder of the dashboard\<close>

text \<open>Python's \<open>s.split(c)\<close> for a one-character separator: the segments between the
  separators, so a string with \<open>n\<close> separators has \<open>n + 1\<close> segments.\<close>

fun py_split :: "char \<Rightarrow> string \<Rightarrow> string list" where
  "py_split c [] = [[]]"
| "py_split c (x # xs) =
     (if x = c then [] # py_split c xs
      else (case py_split c xs of
              [] \<Rightarrow> [[x]]
            | p # ps \<Rightarrow> (x # p) # ps))"

text \<open>\<open>d.get(key, default)\<close> on a dictionary literal, written as its list of pairs.\<close>

definition dict_get :: "(string \<times> string) list \<Rightarrow> string \<Rightarrow> string \<Rightarrow> string" where
  "dict_get d k dflt = (case map_of d k of None \<Rightarrow> dflt | Some v \<Rightarrow> v)"

text \<open>The separator \<open>' \<rightarrow> '\<close> of the label: a space, the arrow U+2192 in UTF-8
  (three bytes) and a space.\<close>

definition arrow :: string where
  "arrow = [CHR 0x20, CHR 0xE2, CHR 0x86, CHR 0x92, CHR 0x20]"

text \<open>The body of \<open>get_ivr_label\<close> after the split: the list \<open>labels\<close>, one
  \<open>append\<close> after the other. Each read \<open>parts[i]\<close> stands under its length test, as in
  the source.\<close>

definition ivr_labels :: "string list \<Rightarrow> string list" where
  "ivr_labels parts =
     (let labels = [];
          labels =
            (if 1 \<le> length parts then
               labels @ [dict_get [(''1'', ''Hindi''), (''2'', ''English'')]
                           (parts ! 0) (''Lang-'' @ parts ! 0)]
             else labels);
          labels =
            (if 2 \<le> length parts then
               labels @ [dict_get [(''1'', ''Rajasthan''), (''2'', ''MP''),
                                   (''3'', ''Maharashtra''), (''4'', ''Other State'')]
                           (parts ! 1) (''State-'' @ parts ! 1)]
             else labels);
          labels =
            (if 3 \<le> length parts then
               labels @ [dict_get [(''1'', ''Sell Machine''), (''2'', ''Buy Old''),
                                   (''3'', ''Buy New''), (''4'', ''Finance''),
                                   (''5'', ''Other Info''), (''9'', ''Consultant'')]
                           (parts ! 2) (''Service-'' @ parts ! 2)]
             else labels);
          labels =
            (if 4 \<le> length parts then
               (if parts ! 2 = ''2'' then
                  labels @ [dict_get [(''1'', ''2020+''), (''2'', ''2018-2020''),
                                      (''3'', ''2015-2017''), (''4'', ''Before 2014'')]
                              (parts ! 3) (''Model-'' @ parts ! 3)]
                else if parts ! 2 = ''1'' then
                  labels @ [dict_get [(''1'', ''Before 2014''), (''2'', ''2015-2017''),
                                      (''3'', ''2018-2020''), (''4'', ''2020+'')]
                              (parts ! 3) (''Model-'' @ parts ! 3)]
                else if parts ! 2 = ''4'' then
                  labels @ [dict_get [(''1'', ''Refinance''), (''2'', ''New Finance'')]
                              (parts ! 3) (''Finance-'' @ parts ! 3)]
                else labels)
             else labels);
          labels =
            (if 5 \<le> length parts \<and> parts ! 2 = ''2'' \<and> parts ! 3 = ''1'' then
               labels @ [dict_get [(''1'', ''49 HP''), (''2'', ''74 HP'')]
                           (parts ! 4) (''HP-'' @ parts ! 4)]
             else labels)
      in labels)"

text \<open>\<open>get_ivr_label(path)\<close>: \<open>not path\<close> holds for \<open>None\<close> and for the empty string.\<close>

definition get_ivr_label :: "string option \<Rightarrow> string" where
  "get_ivr_label path =
     (case path of
        None \<Rightarrow> ''No IVR''
      | Some p \<Rightarrow>
          if p = [] then ''No IVR''
          else join arrow (ivr_labels (py_split (CHR ''-'') p)))"

section \<open>Data frames and the merge with the call records\<close>

text \<open>
  \<open>ivr_database.py\<close> works on pandas frames. A cell is a missing value (\<open>None\<close> or
  \<open>NaN\<close>, which \<open>pd.notna\<close> does not tell apart), a string, a number or a Python list.
  A row carries its column labels, as the \<open>Series\<close> that \<open>DataFrame.apply(axis=1)\<close>
  hands to its function does; a frame is its column labels and its rows in index order.
\<close>

datatype cell = Null | Text string | Number int | Items "cell list"

type_synonym row = "(string \<times> cell) list"

record frame =
  columns :: "string list"
  rows :: "row list"

datatype py_error = KeyError string

text \<open>\<open>row.get(c)\<close>: the cell under the label, \<open>None\<close> when the row has no such label.\<close>

definition row_get :: "row \<Rightarrow> string \<Rightarrow> cell" where
  "row_get r c = (case map_of r c of None \<Rightarrow> Null | Some v \<Rightarrow> v)"

text \<open>\<open>pd.notna(x)\<close> on a scalar cell.\<close>

definition notna :: "cell \<Rightarrow> bool" where
  "notna x = (x \<noteq> Null)"

definition add_column :: "string \<Rightarrow> string list \<Rightarrow> string list" where
  "add_column c cs = (if c \<in> set cs then cs else cs @ [c])"

text \<open>\<open>df[c] = values\<close>: an existing column is overwritten where it stands, a new one is
  appended as the last column.\<close>

definition set_column :: "string \<Rightarrow> cell list \<Rightarrow> frame \<Rightarrow> frame" where
  "set_column c vals f =
     \<lparr>columns = add_column c (columns f),
      rows = map (\<lambda>(r, v). AList.update c v r) (zip (rows f) vals)\<rparr>"

text \<open>\<open>df[c]\<close> as a right-hand side: the column, or \<open>KeyError\<close>.\<close>

definition get_column :: "string \<Rightarrow> frame \<Rightarrow> py_error + cell list" where
  "get_column c f =
     (if c \<in> set (columns f) then Inr (map (\<lambda>r. row_get r c) (rows f)) else Inl (KeyError c))"

text \<open>\<open>df[[c1, ..., cn]]\<close>: the named columns in the order asked for.\<close>

definition select_columns :: "string list \<Rightarrow> frame \<Rightarrow> py_error + frame" where
  "select_columns cs f =
     (case filter (\<lambda>c. c \<notin> set (columns f)) cs of
        [] \<Rightarrow> Inr \<lparr>columns = cs, rows = map (\<lambda>r. map (\<lambda>c. (c, row_get r c)) cs) (rows f)\<rparr>
      | c # _ \<Rightarrow> Inl (KeyError c))"

text \<open>\<open>df.drop(columns=cs, errors='ignore')\<close>.\<close>

definition drop_columns :: "string list \<Rightarrow> frame \<Rightarrow> frame" where
  "drop_columns cs f =
     \<lparr>columns = filter (\<lambda>c. c \<notin> set cs) (columns f),
      rows = map (filter (\<lambda>(c, v). c \<notin> set cs)) (rows f)\<rparr>"

text \<open>
  \<open>left.merge(right, left_on=..., right_on=..., how='left')\<close>: every left row in its
  order, once with each right row whose key equals its own, in the right frame's order,
  or once with missing values in all right columns when there is none. A label the two
  frames share gets the suffix \<open>_x\<close> on the left and \<open>_y\<close> on the right.
\<close>

definition merge_left :: "frame \<Rightarrow> frame \<Rightarrow> string \<Rightarrow> string \<Rightarrow> py_error + frame" where
  "merge_left left right left_on right_on =
     (if left_on \<notin> set (columns left) then Inl (KeyError left_on)
      else if right_on \<notin> set (columns right) then Inl (KeyError right_on)
      else
        (let lname = (\<lambda>c. if c \<in> set (columns right) then c @ ''_x'' else c);
             rname = (\<lambda>c. if c \<in> set (columns left) then c @ ''_y'' else c);
             blank = map (\<lambda>c. (c, Null)) (columns right);
             pair = (\<lambda>l r. map (\<lambda>(c, v). (lname c, v)) l @ map (\<lambda>(c, v). (rname c, v)) r)
         in Inr \<lparr>columns = map lname (columns left) @ map rname (columns right),
                 rows = concat (map (\<lambda>l.
                          (case filter (\<lambda>r. row_get r right_on = row_get l left_on) (rows right) of
                             [] \<Rightarrow> [pair l blank]
                           | ms \<Rightarrow> map (pair l) ms)) (rows left))\<rparr>))"

text \<open>The columns of \<open>SELECT * FROM ivr_paths\<close> and one table row as a frame row.\<close>

definition opt_cell :: "string option \<Rightarrow> cell" where
  "opt_cell v = (case v of None \<Rightarrow> Null | Some s \<Rightarrow> Text s)"

definition path_row :: "ivr_path_row \<Rightarrow> row" where
  "path_row r =
     [(''id'', Number (int (row_id r))),
      (''call_sid'', Text (call_sid r)),
      (''from_number'', opt_cell (from_number r)),
      (''to_number'', opt_cell (to_number r)),
      (''language_choice'', opt_cell (language_choice r)),
      (''state_choice'', opt_cell (state_choice r)),
      (''service_choice'', opt_cell (service_choice r)),
      (''model_choice'', opt_cell (model_choice r)),
      (''hp_choice'', opt_cell (hp_choice r)),
      (''complete_path'', opt_cell (complete_path r)),
      (''timestamp'', Number (int (timestamp r)))]"

definition path_columns :: "string list" where
  "path_columns =
     [''id'', ''call_sid'', ''from_number'', ''to_number'', ''language_choice'',
      ''state_choice'', ''service_choice'', ''model_choice'', ''hp_choice'',
      ''complete_path'', ''timestamp'']"

text \<open>\<open>IVRDatabase.get_ivr_paths()\<close> as \<open>merge_with_call_data\<close> calls it, with no date
  bound: the whole table, \<open>ORDER BY timestamp DESC\<close> (rows of one timestamp stay in
  insertion order here; SQL leaves their order open).\<close>

definition get_ivr_paths :: "path_table \<Rightarrow> frame" where
  "get_ivr_paths tbl =
     \<lparr>columns = path_columns,
      rows = map path_row (sort_key (\<lambda>r. - int (timestamp r)) tbl)\<rparr>"

definition merge_columns :: "string list" where
  "merge_columns =
     [''call_sid'', ''complete_path'', ''language_choice'', ''state_choice'',
      ''service_choice'', ''model_choice'', ''hp_choice'']"

text \<open>The function passed to \<open>merged_df.apply(..., axis=1)\<close>.\<close>

definition selections_of :: "row \<Rightarrow> cell" where
  "selections_of r =
     (if notna (row_get r ''complete_path'') then
        Items (filter notna
          [row_get r ''language_choice'', row_get r ''state_choice'',
           row_get r ''service_choice'', row_get r ''model_choice'', row_get r ''hp_choice''])
      else Null)"

text \<open>\<open>IVRDatabase.merge_with_call_data(call_df)\<close>, with the path table it reads passed in.
  Assigning the scalar \<open>None\<close> to a column fills every row with it.\<close>

definition merge_with_call_data :: "path_table \<Rightarrow> frame \<Rightarrow> py_error + frame" where
  "merge_with_call_data tbl call_df =
     (let ivr_df = get_ivr_paths tbl
      in if rows ivr_df = [] then
           (let nones = map (\<lambda>_. Null) (rows call_df);
                call_df = set_column ''IVRPath'' nones call_df;
                call_df = set_column ''IVRSelections'' nones call_df
            in Inr call_df)
         else
           (case select_columns merge_columns ivr_df of
              Inl e \<Rightarrow> Inl e
            | Inr right \<Rightarrow>
                (case merge_left call_df right ''CallSid'' ''call_sid'' of
                   Inl e \<Rightarrow> Inl e
                 | Inr merged_df \<Rightarrow>
                     (case get_column ''complete_path'' merged_df of
                        Inl e \<Rightarrow> Inl e
                      | Inr path \<Rightarrow>
                          (let merged_df = set_column ''IVRPath'' path merged_df;
                               merged_df = set_column ''IVRSelections''
                                             (map selections_of (rows merged_df)) merged_df;
                               merged_df = drop_columns merge_columns merged_df
                           in Inr merged_df)))))"

section \<open>Notions of the specification\<close>

text \<open>The number of non-empty leading segments of a split path.\<close>

definition leading_nonempty :: "string list \<Rightarrow> nat" where
  "leading_nonempty parts = length (takeWhile (\<lambda>s. s \<noteq> []) parts)"

text \<open>The event of a list that is applied last for a call and a step, if there is one.\<close>

definition supplied :: "string \<Rightarrow> string \<Rightarrow> step_event list \<Rightarrow> step_event option" where
  "supplied sid step es = find (\<lambda>e. (ev_call_sid e, ev_step e) = (sid, step)) (rev es)"

text \<open>What a lookup by call id finds in the table: the choice for a step and the stored
  path (\<open>None\<close> also when the call has no row).\<close>

definition stored_choice :: "string \<Rightarrow> string \<Rightarrow> path_table \<Rightarrow> string option" where
  "stored_choice sid step tbl = (case select_path sid tbl of None \<Rightarrow> None | Some r \<Rightarrow> choice step r)"

definition stored_path :: "string \<Rightarrow> path_table \<Rightarrow> string option" where
  "stored_path sid tbl = (case select_path sid tbl of None \<Rightarrow> None | Some r \<Rightarrow> complete_path r)"

text \<open>The choice a call should hold for a step after the events of a list: the cleaned
  digit of the last event for that call and step (last write wins), or what the table
  held before.\<close>

definition final_choice :: "string \<Rightarrow> string \<Rightarrow> step_event list \<Rightarrow> path_table \<Rightarrow> string option" where
  "final_choice sid step es tbl =
     (case supplied sid step es of
        Some e \<Rightarrow> clean_digit (ev_digit e)
      | None \<Rightarrow> stored_choice sid step tbl)"

text \<open>Two events are on the same step of the same call when their keys agree.\<close>

definition event_key :: "step_event \<Rightarrow> string \<times> string" where
  "event_key e = (ev_call_sid e, ev_step e)"

text \<open>A step event that carries a digit and no phone numbers.\<close>

definition plain_event :: "string \<Rightarrow> string \<Rightarrow> string \<Rightarrow> nat \<Rightarrow> step_event" where
  "plain_event sid step digit t =
     \<lparr>ev_call_sid = sid, ev_step = step, ev_digit = Some digit,
      ev_from = None, ev_to = None, ev_time = t\<rparr>"

text \<open>A frame is well formed when its column labels are distinct and every row carries
  exactly these labels, in this order.\<close>

definition wf_frame :: "frame \<Rightarrow> bool" where
  "wf_frame f = (distinct (columns f) \<and> list_all (\<lambda>r. map fst r = columns f) (rows f))"

text \<open>The call ids of a call frame are strings, or missing. (pandas refuses to merge a
  numeric key column with a string one; the frames of the dashboard carry the call ids
  of the telephony API, which are strings.)\<close>

definition string_keys :: "frame \<Rightarrow> bool" where
  "string_keys f =
     list_all (\<lambda>r. case row_get r ''CallSid'' of Null \<Rightarrow> True | Text _ \<Rightarrow> True | _ \<Rightarrow> False) (rows f)"

text \<open>The path record that matches a call row: the one whose \<open>call_sid\<close> is the row's
  \<open>CallSid\<close>.\<close>

definition matching_path :: "path_table \<Rightarrow> row \<Rightarrow> ivr_path_row option" where
  "matching_path tbl l =
     (case row_get l ''CallSid'' of
        Text sid \<Rightarrow> select_path sid tbl
      | _ \<Rightarrow> None)"

text \<open>The choices of a record that are set, in step order; and its non-empty choice
  values in step order.\<close>

definition set_choices :: "ivr_path_row \<Rightarrow> string list" where
  "set_choices r = List.map_filter (\<lambda>s. choice s r) step_names"

definition nonempty_choices :: "ivr_path_row \<Rightarrow> string list" where
  "nonempty_choices r = filter (\<lambda>v. v \<noteq> []) (map (\<lambda>s. coalesce (choice s r)) step_names)"

section \<open>Auxiliary definitions for the proofs\<close>

text \<open>The three row operations \<open>update_ivr_path\<close> is made of: the \<open>elif\<close> chain on one
  row, the recomputation of \<open>complete_path\<close>, and the inserted row.\<close>

definition set_choice :: "string \<Rightarrow> string option \<Rightarrow> ivr_path_row \<Rightarrow> ivr_path_row" where
  "set_choice step_name digit r =
     (if step_name = ''language'' then r\<lparr>language_choice := digit\<rparr>
      else if step_name = ''state'' then r\<lparr>state_choice := digit\<rparr>
      else if step_name = ''service'' then r\<lparr>service_choice := digit\<rparr>
      else if step_name = ''model'' then r\<lparr>model_choice := digit\<rparr>
      else if step_name = ''hp'' then r\<lparr>hp_choice := digit\<rparr>
      else r)"

definition recompute :: "ivr_path_row \<Rightarrow> ivr_path_row" where
  "recompute r = r\<lparr>complete_path := Some (path_expr r)\<rparr>"

definition new_row :: "string \<Rightarrow> string \<Rightarrow> string option \<Rightarrow> string option \<Rightarrow> string option \<Rightarrow> nat \<Rightarrow> nat \<Rightarrow> ivr_path_row" where
  "new_row sid step_name digit from_no to_no now i =
     set_choice step_name digit
       \<lparr>row_id = i, call_sid = sid, from_number = from_no, to_number = to_no,
        language_choice = None, state_choice = None, service_choice = None,
        model_choice = None, hp_choice = None, complete_path = None, timestamp = now\<rparr>"

definition path_ok :: "string \<Rightarrow> path_table \<Rightarrow> bool" where
  "path_ok sid tbl = (case select_path sid tbl of None \<Rightarrow> False | Some r \<Rightarrow> complete_path r = Some (path_expr r))"


text \<open>The seven cells of a path record that the merge keeps, and what the merge makes
  of one call row.\<close>

definition merge_row :: "ivr_path_row \<Rightarrow> row" where
  "merge_row r = map (\<lambda>c. (c, row_get (path_row r) c)) merge_columns"

definition blank_row :: row where
  "blank_row = map (\<lambda>c. (c, Null)) merge_columns"

definition joined_row :: "path_table \<Rightarrow> row \<Rightarrow> row" where
  "joined_row tbl l = l @ (case matching_path tbl l of None \<Rightarrow> blank_row | Some r \<Rightarrow> merge_row r)"

definition out_row :: "path_table \<Rightarrow> row \<Rightarrow> row" where
  "out_row tbl l =
     AList.update ''IVRSelections'' (selections_of (joined_row tbl l))
       (AList.update ''IVRPath'' (row_get (joined_row tbl l) ''complete_path'') l)"

section \<open>Properties of the path table\<close>

lemma path_expr_join: "path_expr r = join_of_choices r"
  by (simp add: path_expr_def join_of_choices_def step_names_def choice_def)

lemma update_ivr_path_alt:
  "update_ivr_path sid step_name digit_input from_no to_no now tbl =
     sql_update recompute sid
       (case select_path sid tbl of
          Some _ \<Rightarrow> sql_update (set_choice step_name (clean_digit digit_input)) sid tbl
        | None \<Rightarrow> tbl @ [new_row sid step_name (clean_digit digit_input) from_no to_no now (next_id tbl)])"
proof -
  have upd: "(if step_name = ''language'' then sql_update (\<lambda>r. r\<lparr>language_choice := d\<rparr>) sid tbl
        else if step_name = ''state'' then sql_update (\<lambda>r. r\<lparr>state_choice := d\<rparr>) sid tbl
        else if step_name = ''service'' then sql_update (\<lambda>r. r\<lparr>service_choice := d\<rparr>) sid tbl
        else if step_name = ''model'' then sql_update (\<lambda>r. r\<lparr>model_choice := d\<rparr>) sid tbl
        else if step_name = ''hp'' then sql_update (\<lambda>r. r\<lparr>hp_choice := d\<rparr>) sid tbl
        else tbl) = sql_update (set_choice step_name d) sid tbl" for d
    unfolding set_choice_def by (simp add: sql_update_def cong: if_cong)
  have new: "\<lparr>row_id = i, call_sid = sid, from_number = from_no, to_number = to_no,
          language_choice = (if step_name = ''language'' then d else None),
          state_choice = (if step_name = ''state'' then d else None),
          service_choice = (if step_name = ''service'' then d else None),
          model_choice = (if step_name = ''model'' then d else None),
          hp_choice = (if step_name = ''hp'' then d else None),
          complete_path = None, timestamp = now\<rparr> = new_row sid step_name d from_no to_no now i" for d i
    unfolding new_row_def set_choice_def by simp
  show ?thesis
    unfolding update_ivr_path_def Let_def upd new recompute_def [abs_def] ..
qed


lemma call_sid_set_choice [simp]: "call_sid (set_choice step_name digit r) = call_sid r"
  by (simp add: set_choice_def)

lemma call_sid_recompute [simp]: "call_sid (recompute r) = call_sid r"
  by (simp add: recompute_def)

lemma call_sid_new_row [simp]: "call_sid (new_row sid step_name digit from_no to_no now i) = sid"
  by (simp add: new_row_def)

lemma path_expr_recompute [simp]: "path_expr (recompute r) = path_expr r"
  by (simp add: recompute_def path_expr_def)

lemma complete_path_recompute [simp]: "complete_path (recompute r) = Some (path_expr r)"
  by (simp add: recompute_def)

lemma recompute_idem [simp]: "recompute (recompute r) = recompute r"
  by (simp add: recompute_def path_expr_def)

lemma set_choice_idem [simp]: "set_choice step_name digit (set_choice step_name digit r) = set_choice step_name digit r"
  by (simp add: set_choice_def)

lemma set_choice_new_row [simp]:
  "set_choice step_name digit (new_row sid step_name digit from_no to_no now i) =
     new_row sid step_name digit from_no to_no now i"
  by (simp add: new_row_def)

lemma set_choice_recompute:
  "recompute (set_choice step_name digit (recompute r)) = recompute (set_choice step_name digit r)"
  by (simp add: set_choice_def recompute_def path_expr_def)

lemma select_path_sql_update:
  assumes "\<And>r. call_sid (f r) = call_sid r"
  shows "select_path sid (sql_update f sid' tbl) =
         (if sid = sid' then map_option f (select_path sid tbl) else select_path sid tbl)"
  using assms by (induction tbl) (auto simp: sql_update_def select_path_def)

lemma select_path_append:
  "select_path sid (tbl @ [r]) =
     (case select_path sid tbl of Some x \<Rightarrow> Some x | None \<Rightarrow> if call_sid r = sid then Some r else None)"
  by (induction tbl) (auto simp: select_path_def)

lemma select_path_None_iff: "select_path sid tbl = None \<longleftrightarrow> sid \<notin> call_sid ` set tbl"
  by (auto simp: select_path_def find_None_iff)

lemma sql_update_append: "sql_update f sid (xs @ ys) = sql_update f sid xs @ sql_update f sid ys"
  by (simp add: sql_update_def)

lemma sql_update_absent: "select_path sid tbl = None \<Longrightarrow> sql_update f sid tbl = tbl"
  unfolding select_path_None_iff sql_update_def by (induction tbl) auto

lemma sql_update_comp:
  "(\<And>r. call_sid (g r) = call_sid r) \<Longrightarrow>
   sql_update f sid (sql_update g sid tbl) = sql_update (\<lambda>r. f (g r)) sid tbl"
  by (simp add: sql_update_def)

text \<open>What a call does to the row that a lookup by call id returns.\<close>

lemma select_path_update_ivr_path:
  "select_path sid' (update_ivr_path sid step_name digit_input from_no to_no now tbl) =
     (if sid' = sid then
        Some (recompute
          (case select_path sid tbl of
             Some r \<Rightarrow> set_choice step_name (clean_digit digit_input) r
           | None \<Rightarrow> new_row sid step_name (clean_digit digit_input) from_no to_no now (next_id tbl)))
      else select_path sid' tbl)"
  by (simp add: update_ivr_path_alt select_path_sql_update select_path_append split: option.splits)

lemma path_invariant_step:
  assumes "\<forall>r\<in>set tbl. complete_path r = Some (path_expr r)"
  shows "\<forall>r\<in>set (update_ivr_path sid step_name digit_input from_no to_no now tbl).
           complete_path r = Some (path_expr r)"
proof (cases "select_path sid tbl")
  case None
  then show ?thesis using assms
    by (auto simp: update_ivr_path_alt sql_update_def)
next
  case (Some a)
  then show ?thesis using assms
    by (auto simp: update_ivr_path_alt sql_update_def)
qed

lemma path_invariant_events:
  "\<forall>r\<in>set tbl. complete_path r = Some (path_expr r) \<Longrightarrow>
   \<forall>r\<in>set (apply_events es tbl). complete_path r = Some (path_expr r)"
  unfolding apply_events_def
proof (induction es arbitrary: tbl)
  case Nil
  then show ?case by simp
next
  case (Cons e es)
  have "\<forall>r\<in>set (upsert_step e tbl). complete_path r = Some (path_expr r)"
    unfolding upsert_step_def by (rule path_invariant_step [OF Cons.prems])
  from Cons.IH [OF this] show ?case by simp
qed

lemma choice_set_choice:
  "s \<in> set step_names \<Longrightarrow> choice s (set_choice step_name digit r) = (if step_name = s then digit else choice s r)"
  by (auto simp: step_names_def choice_def set_choice_def)

lemma choice_recompute [simp]: "choice s (recompute r) = choice s r"
  by (simp add: choice_def recompute_def)

lemma choice_new_row:
  "s \<in> set step_names \<Longrightarrow>
   choice s (new_row sid step_name digit from_no to_no now i) = (if step_name = s then digit else None)"
  by (simp add: new_row_def choice_set_choice) (simp add: choice_def)

lemma stored_choice_upsert:
  assumes "s \<in> set step_names"
  shows "stored_choice sid s (upsert_step e tbl) =
         (if (ev_call_sid e, ev_step e) = (sid, s) then clean_digit (ev_digit e) else stored_choice sid s tbl)"
  using assms
  by (simp add: stored_choice_def upsert_step_def select_path_update_ivr_path
      choice_set_choice choice_new_row split: option.splits)

lemma find_snoc:
  "find P (xs @ [x]) = (case find P xs of Some y \<Rightarrow> Some y | None \<Rightarrow> if P x then Some x else None)"
  by (induction xs) auto

lemma stored_choice_events:
  assumes "s \<in> set step_names"
  shows "stored_choice sid s (apply_events es tbl) = final_choice sid s es tbl"
  unfolding apply_events_def
proof (induction es arbitrary: tbl)
  case Nil
  show ?case by (simp add: final_choice_def supplied_def)
next
  case (Cons e es)
  have "stored_choice sid s (fold upsert_step (e # es) tbl) = final_choice sid s es (upsert_step e tbl)"
    using Cons.IH by simp
  also have "\<dots> = final_choice sid s (e # es) tbl"
    by (simp add: final_choice_def supplied_def find_snoc stored_choice_upsert [OF assms]
        split: option.splits)
  finally show ?case .
qed

lemma path_ok_upsert: "ev_call_sid e = sid \<or> path_ok sid tbl \<Longrightarrow> path_ok sid (upsert_step e tbl)"
  by (auto simp: path_ok_def upsert_step_def select_path_update_ivr_path split: option.splits)

lemma path_ok_events:
  "sid \<in> ev_call_sid ` set es \<or> path_ok sid tbl \<Longrightarrow> path_ok sid (apply_events es tbl)"
  unfolding apply_events_def
proof (induction es arbitrary: tbl)
  case Nil
  then show ?case by simp
next
  case (Cons e es)
  show ?case
  proof (cases "sid \<in> ev_call_sid ` set es")
    case True
    then show ?thesis using Cons.IH by simp
  next
    case False
    with Cons.prems have "ev_call_sid e = sid \<or> path_ok sid tbl" by auto
    then have "path_ok sid (upsert_step e tbl)" by (rule path_ok_upsert)
    then show ?thesis using Cons.IH by simp
  qed
qed

lemma stored_path_join:
  assumes "path_ok sid tbl"
  shows "stored_path sid tbl = Some (join ''-'' (map (\<lambda>s. coalesce (stored_choice sid s tbl)) step_names))"
  using assms
  by (auto simp: path_ok_def stored_path_def stored_choice_def path_expr_join join_of_choices_def
      split: option.splits)

lemma stored_path_events:
  assumes "sid \<in> ev_call_sid ` set es"
  shows "stored_path sid (apply_events es tbl) =
         Some (join ''-'' (map (\<lambda>s. coalesce (final_choice sid s es tbl)) step_names))"
proof -
  have "path_ok sid (apply_events es tbl)" using assms by (simp add: path_ok_events)
  then have "stored_path sid (apply_events es tbl) =
      Some (join ''-'' (map (\<lambda>s. coalesce (stored_choice sid s (apply_events es tbl))) step_names))"
    by (rule stored_path_join)
  also have "map (\<lambda>s. coalesce (stored_choice sid s (apply_events es tbl))) step_names =
      map (\<lambda>s. coalesce (final_choice sid s es tbl)) step_names"
    by (rule map_cong) (simp_all add: stored_choice_events)
  finally show ?thesis .
qed

lemma find_distinct_key:
  "distinct (map k xs) \<Longrightarrow> x \<in> set xs \<Longrightarrow> find (\<lambda>y. k y = k x) xs = Some x"
  by (induction xs) (auto simp: image_iff)

lemma find_key_perm:
  assumes "distinct (map k xs)" and "mset ys = mset xs"
  shows "find (\<lambda>y. k y = a) ys = find (\<lambda>y. k y = a) xs"
proof (cases "find (\<lambda>y. k y = a) xs")
  case None
  then have "\<forall>y\<in>set xs. k y \<noteq> a" by (auto simp: find_None_iff)
  moreover have "set ys = set xs" using assms(2) by (rule mset_eq_setD)
  ultimately have "find (\<lambda>y. k y = a) ys = None" by (simp add: find_None_iff)
  then show ?thesis using None by simp
next
  case (Some x)
  then have x: "x \<in> set xs" "k x = a" by (auto simp: find_Some_iff)
  have "mset (map k ys) = mset (map k xs)" using assms(2) by simp
  then have dy: "distinct (map k ys)" using assms(1) by (metis mset_eq_imp_distinct_iff)
  have "x \<in> set ys" using x(1) assms(2) by (metis mset_eq_setD)
  from find_distinct_key [OF dy this] find_distinct_key [OF assms(1) x(1)] x(2)
  show ?thesis by simp
qed

lemma supplied_perm:
  assumes "distinct (map event_key es)" and "mset es' = mset es"
  shows "supplied sid s es' = supplied sid s es"
proof -
  have "distinct (map event_key (rev es))" using assms(1) by (simp add: rev_map [symmetric])
  moreover have "mset (rev es') = mset (rev es)" using assms(2) by simp
  ultimately have "find (\<lambda>y. event_key y = (sid, s)) (rev es') = find (\<lambda>y. event_key y = (sid, s)) (rev es)"
    by (rule find_key_perm)
  then show ?thesis by (simp add: supplied_def event_key_def)
qed

section \<open>Properties of the merge\<close>

lemma filter_distinct_key:
  "distinct (map k xs) \<Longrightarrow>
   filter (\<lambda>x. k x = a) xs = (case find (\<lambda>x. k x = a) xs of None \<Rightarrow> [] | Some x \<Rightarrow> [x])"
proof (induction xs)
  case Nil
  then show ?case by simp
next
  case (Cons x xs)
  show ?case
  proof (cases "k x = a")
    case True
    then have "\<forall>y\<in>set xs. k y \<noteq> a" using Cons.prems by (auto simp: image_iff)
    then have "filter (\<lambda>x. k x = a) xs = []" by (simp add: filter_empty_conv)
    then show ?thesis using True by simp
  next
    case False
    then show ?thesis using Cons by simp
  qed
qed

lemma filter_sorted_paths:
  assumes "distinct (map call_sid tbl)"
  shows "filter (\<lambda>r. call_sid r = sid) (sort_key f tbl) =
         (case select_path sid tbl of None \<Rightarrow> [] | Some r \<Rightarrow> [r])"
proof -
  have "mset (map call_sid (sort_key f tbl)) = mset (map call_sid tbl)" by simp
  then have d: "distinct (map call_sid (sort_key f tbl))"
    using assms by (metis mset_eq_imp_distinct_iff)
  have "find (\<lambda>r. call_sid r = sid) (sort_key f tbl) = find (\<lambda>r. call_sid r = sid) tbl"
    by (rule find_key_perm [OF assms]) simp
  then show ?thesis
    using filter_distinct_key [OF d, of sid] by (simp add: select_path_def)
qed

lemma row_get_merge_row_call_sid: "row_get (merge_row r) ''call_sid'' = Text (call_sid r)"
  by (simp add: merge_row_def merge_columns_def row_get_def path_row_def)

lemma matches_of_call_row:
  assumes "distinct (map call_sid tbl)"
  shows "filter (\<lambda>r. row_get r ''call_sid'' = k) (map merge_row (sort_key f tbl)) =
         (case (case k of Text sid \<Rightarrow> select_path sid tbl | _ \<Rightarrow> None) of
            None \<Rightarrow> [] | Some r \<Rightarrow> [merge_row r])"
proof (cases k)
  case (Text sid)
  have "filter (\<lambda>r. row_get r ''call_sid'' = k) (map merge_row (sort_key f tbl)) =
      map merge_row (filter (\<lambda>r. call_sid r = sid) (sort_key f tbl))"
    by (simp add: filter_map comp_def row_get_merge_row_call_sid Text)
  then show ?thesis
    using filter_sorted_paths [OF assms, of sid f] Text by (simp split: option.splits)
qed (simp_all add: filter_map comp_def row_get_merge_row_call_sid)

lemma select_merge_columns:
  "select_columns merge_columns (get_ivr_paths tbl) =
     Inr \<lparr>columns = merge_columns, rows = map merge_row (sort_key (\<lambda>r. - int (timestamp r)) tbl)\<rparr>"
  by (simp add: select_columns_def get_ivr_paths_def merge_columns_def path_columns_def
      merge_row_def comp_def)


lemma relabel_id:
  assumes "\<And>c. c \<in> fst ` set r \<Longrightarrow> g c = c"
  shows "map (\<lambda>(c, v). (g c, v)) r = r"
  using assms by (induction r) auto

lemma fst_merge_row [simp]: "map fst (merge_row r) = merge_columns"
  by (simp add: merge_row_def comp_def)

lemma fst_blank_row [simp]: "map fst blank_row = merge_columns"
  by (simp add: blank_row_def comp_def)

lemma merge_left_call_df:
  assumes wf: "wf_frame call_df"
    and key: "''CallSid'' \<in> set (columns call_df)"
    and noclash: "set (columns call_df) \<inter> set merge_columns = {}"
    and uniq: "distinct (map call_sid tbl)"
    and rc: "columns right = merge_columns"
    and rr: "rows right = map merge_row (sort_key f tbl)"
  shows "merge_left call_df right ''CallSid'' ''call_sid'' =
         Inr \<lparr>columns = columns call_df @ merge_columns, rows = map (joined_row tbl) (rows call_df)\<rparr>"
proof -
  let ?lname = "\<lambda>c. if c \<in> set merge_columns then c @ ''_x'' else c"
  let ?rname = "\<lambda>c. if c \<in> set (columns call_df) then c @ ''_y'' else c"
  let ?pair = "\<lambda>l r. map (\<lambda>(c, v). (?lname c, v)) l @ map (\<lambda>(c, v). (?rname c, v)) r"
  have lcols: "map ?lname (columns call_df) = columns call_df"
    using noclash by (intro map_idI) auto
  have rcols: "map ?rname merge_columns = merge_columns"
    using noclash by (intro map_idI) auto
  have right: "map (\<lambda>(c, v). (?rname c, v)) m = m" if "map fst m = merge_columns" for m
  proof (rule relabel_id)
    fix c assume "c \<in> fst ` set m"
    then have "c \<in> set merge_columns" using that by (metis set_map)
    then show "?rname c = c" using noclash by auto
  qed
  have row: "(case filter (\<lambda>r. row_get r ''call_sid'' = row_get l ''CallSid'')
                     (map merge_row (sort_key f tbl)) of
                [] \<Rightarrow> [?pair l (map (\<lambda>c. (c, Null)) merge_columns)]
              | ms \<Rightarrow> map (?pair l) ms) = [joined_row tbl l]"
    if l: "l \<in> set (rows call_df)" for l
  proof -
    have "map fst l = columns call_df"
      using wf l by (simp add: wf_frame_def list_all_iff)
    then have "fst ` set l = set (columns call_df)" by (metis set_map)
    then have left: "map (\<lambda>(c, v). (?lname c, v)) l = l"
      using noclash by (intro relabel_id) auto
    show ?thesis
      by (simp add: matches_of_call_row [OF uniq] joined_row_def matching_path_def left right
          blank_row_def [symmetric] split: option.splits cell.splits)
  qed
  have "concat (map (\<lambda>l. case filter (\<lambda>r. row_get r ''call_sid'' = row_get l ''CallSid'')
                     (map merge_row (sort_key f tbl)) of
                [] \<Rightarrow> [?pair l (map (\<lambda>c. (c, Null)) merge_columns)]
              | ms \<Rightarrow> map (?pair l) ms) (rows call_df)) =
        concat (map (\<lambda>l. [joined_row tbl l]) (rows call_df))"
    by (intro arg_cong [where f = concat] map_cong refl row)
  also have "\<dots> = map (joined_row tbl) (rows call_df)"
    by (induction "rows call_df") auto
  finally have rows: "concat (map (\<lambda>l. case filter (\<lambda>r. row_get r ''call_sid'' = row_get l ''CallSid'')
                     (map merge_row (sort_key f tbl)) of
                [] \<Rightarrow> [?pair l (map (\<lambda>c. (c, Null)) merge_columns)]
              | ms \<Rightarrow> map (?pair l) ms) (rows call_df)) = map (joined_row tbl) (rows call_df)" .
  have sid: "''call_sid'' \<in> set merge_columns"
    by (simp add: merge_columns_def)
  show ?thesis
    unfolding merge_left_def Let_def rc rr rows lcols rcols using key sid by simp
qed


lemma map_zip_same: "map (\<lambda>(r, v). g r v) (zip xs (map f xs)) = map (\<lambda>r. g r (f r)) xs"
  by (induction xs) auto

lemma map_zip_maps:
  "map (\<lambda>(r, v). g r v) (zip (map h xs) (map f xs)) = map (\<lambda>x. g (h x) (f x)) xs"
  by (induction xs) auto

lemma row_get_update: "row_get (AList.update k v r) c = (if c = k then v else row_get r c)"
  by (simp add: row_get_def update_conv')

lemma row_get_append:
  "row_get (l @ m) c = (if c \<in> fst ` set l then row_get l c else row_get m c)"
proof (cases "map_of l c")
  case None
  then have "c \<notin> fst ` set l" by (simp add: map_of_eq_None_iff)
  then show ?thesis using None by (simp add: row_get_def map_add_def)
next
  case (Some v)
  then have "c \<in> fst ` set l" by (metis map_of_eq_None_iff option.distinct(1))
  then show ?thesis using Some by (simp add: row_get_def map_add_def)
qed

lemma selections_of_update:
  assumes "k \<notin> set merge_columns"
  shows "selections_of (AList.update k v r) = selections_of r"
proof -
  have same: "row_get (AList.update k v r) c = row_get r c" if "c \<in> set merge_columns" for c
    using that assms by (auto simp: row_get_update)
  have "''complete_path'' \<in> set merge_columns" "''language_choice'' \<in> set merge_columns"
    "''state_choice'' \<in> set merge_columns" "''service_choice'' \<in> set merge_columns"
    "''model_choice'' \<in> set merge_columns" "''hp_choice'' \<in> set merge_columns"
    by (simp_all add: merge_columns_def)
  then show ?thesis
    by (simp add: selections_of_def same)
qed

lemma drop_update:
  "k \<notin> set cs \<Longrightarrow>
   filter (\<lambda>(c, v). c \<notin> set cs) (AList.update k v r) = AList.update k v (filter (\<lambda>(c, v). c \<notin> set cs) r)"
  by (induction r) auto

lemma drop_joined:
  assumes "fst ` set l \<inter> set cs = {}" and "fst ` set m \<subseteq> set cs"
  shows "filter (\<lambda>(c, v). c \<notin> set cs) (l @ m) = l"
proof -
  have "filter (\<lambda>(c, v). c \<notin> set cs) l = l"
    using assms(1) by (intro filter_True) (auto simp: disjoint_iff)
  moreover have "filter (\<lambda>(c, v). c \<notin> set cs) m = []"
    using assms(2) by (auto simp: filter_empty_conv)
  ultimately show ?thesis by simp
qed

lemma drop_add_column:
  "k \<notin> set cs \<Longrightarrow>
   filter (\<lambda>c. c \<notin> set cs) (add_column k xs) = add_column k (filter (\<lambda>c. c \<notin> set cs) xs)"
  by (simp add: add_column_def)

lemma joined_row_labels:
  "fst ` set (case matching_path tbl l of None \<Rightarrow> blank_row | Some r \<Rightarrow> merge_row r) = set merge_columns"
proof -
  have "map fst (case matching_path tbl l of None \<Rightarrow> blank_row | Some r \<Rightarrow> merge_row r) = merge_columns"
    by (simp split: option.splits)
  then show ?thesis by (metis set_map)
qed

lemma final_row:
  assumes "fst ` set l \<inter> set merge_columns = {}"
  shows "filter (\<lambda>(c, v). c \<notin> set merge_columns)
           (AList.update ''IVRSelections''
              (selections_of (AList.update ''IVRPath'' (row_get (joined_row tbl l) ''complete_path'') (joined_row tbl l)))
              (AList.update ''IVRPath'' (row_get (joined_row tbl l) ''complete_path'') (joined_row tbl l))) =
         out_row tbl l"
proof -
  have p: "''IVRPath'' \<notin> set merge_columns" and s: "''IVRSelections'' \<notin> set merge_columns"
    by (simp_all add: merge_columns_def)
  have "filter (\<lambda>(c, v). c \<notin> set merge_columns) (joined_row tbl l) = l"
    unfolding joined_row_def using assms by (rule drop_joined) (simp add: joined_row_labels)
  then show ?thesis
    by (simp add: out_row_def drop_update [OF p] drop_update [OF s] selections_of_update [OF p])
qed

lemma merge_with_call_data_rows:
  assumes wf: "wf_frame call_df"
    and key: "''CallSid'' \<in> set (columns call_df)"
    and noclash: "set (columns call_df) \<inter> set merge_columns = {}"
    and uniq: "distinct (map call_sid tbl)"
  shows "merge_with_call_data tbl call_df =
         Inr \<lparr>columns = add_column ''IVRSelections'' (add_column ''IVRPath'' (columns call_df)),
               rows = map (out_row tbl) (rows call_df)\<rparr>"
proof (cases "tbl = []")
  case True
  have row: "AList.update ''IVRSelections'' Null (AList.update ''IVRPath'' Null l) = out_row [] l"
    if "l \<in> set (rows call_df)" for l
  proof -
    have "map fst l = columns call_df"
      using wf that by (simp add: wf_frame_def list_all_iff)
    then have "fst ` set l = set (columns call_df)" by (metis set_map)
    then have "''complete_path'' \<notin> fst ` set l"
      using noclash by (auto simp: merge_columns_def)
    moreover have "matching_path [] l = None"
      by (simp add: matching_path_def select_path_def split: cell.splits)
    moreover have "row_get blank_row ''complete_path'' = Null"
      by (simp add: blank_row_def merge_columns_def row_get_def)
    ultimately have "row_get (joined_row [] l) ''complete_path'' = Null"
      by (simp add: joined_row_def row_get_append)
    then show ?thesis
      by (simp add: out_row_def selections_of_def notna_def)
  qed
  have "map (\<lambda>l. AList.update ''IVRSelections'' Null (AList.update ''IVRPath'' Null l)) (rows call_df) =
      map (out_row []) (rows call_df)"
    by (intro map_cong refl row)
  then show ?thesis
    using True
    by (simp add: merge_with_call_data_def get_ivr_paths_def Let_def set_column_def
        map_zip_same [where f = "\<lambda>_. Null"] map_zip_maps [where f = "\<lambda>_. Null"] comp_def)
next
  case False
  let ?right = "\<lparr>columns = merge_columns, rows = map merge_row (sort_key (\<lambda>r. - int (timestamp r)) tbl)\<rparr>"
  have nonempty: "rows (get_ivr_paths tbl) \<noteq> []"
    using False by (simp add: get_ivr_paths_def) (metis length_sort length_0_conv)
  have merged: "merge_left call_df ?right ''CallSid'' ''call_sid'' =
      Inr \<lparr>columns = columns call_df @ merge_columns, rows = map (joined_row tbl) (rows call_df)\<rparr>"
    by (rule merge_left_call_df [OF wf key noclash uniq]) simp_all
  have cols: "filter (\<lambda>c. c \<notin> set merge_columns)
      (add_column ''IVRSelections'' (add_column ''IVRPath'' (columns call_df @ merge_columns))) =
      add_column ''IVRSelections'' (add_column ''IVRPath'' (columns call_df))"
  proof -
    have "filter (\<lambda>c. c \<notin> set merge_columns) (columns call_df) = columns call_df"
      using noclash by (intro filter_True) (auto simp: disjoint_iff)
    moreover have "filter (\<lambda>c. c \<notin> set merge_columns) merge_columns = []"
      by (simp add: filter_empty_conv)
    moreover have "''IVRPath'' \<notin> set merge_columns" and "''IVRSelections'' \<notin> set merge_columns"
      by (simp_all add: merge_columns_def)
    ultimately show ?thesis
      by (simp add: drop_add_column)
  qed
  define path_of where "path_of = (\<lambda>l. row_get (joined_row tbl l) ''complete_path'')"
  define with_path where "with_path = (\<lambda>l. AList.update ''IVRPath'' (path_of l) (joined_row tbl l))"
  define with_sel where
    "with_sel = (\<lambda>l. AList.update ''IVRSelections'' (selections_of (with_path l)) (with_path l))"
  define m0 where
    "m0 = \<lparr>columns = columns call_df @ merge_columns, rows = map (joined_row tbl) (rows call_df)\<rparr>"
  define m1 where
    "m1 = \<lparr>columns = add_column ''IVRPath'' (columns call_df @ merge_columns),
           rows = map with_path (rows call_df)\<rparr>"
  define m2 where
    "m2 = \<lparr>columns = add_column ''IVRSelections'' (add_column ''IVRPath'' (columns call_df @ merge_columns)),
           rows = map with_sel (rows call_df)\<rparr>"
  have rows: "map (\<lambda>l. filter (\<lambda>(c, v). c \<notin> set merge_columns) (with_sel l)) (rows call_df) =
      map (out_row tbl) (rows call_df)"
  proof (rule map_cong [OF refl])
    fix l assume "l \<in> set (rows call_df)"
    then have "map fst l = columns call_df"
      using wf by (simp add: wf_frame_def list_all_iff)
    then have "fst ` set l = set (columns call_df)" by (metis set_map)
    then have "fst ` set l \<inter> set merge_columns = {}" using noclash by simp
    then show "filter (\<lambda>(c, v). c \<notin> set merge_columns) (with_sel l) = out_row tbl l"
      unfolding with_sel_def with_path_def path_of_def by (rule final_row)
  qed
  have g: "get_column ''complete_path'' m0 = Inr (map path_of (rows call_df))"
    by (simp add: get_column_def m0_def merge_columns_def path_of_def)
  have s1: "set_column ''IVRPath'' (map path_of (rows call_df)) m0 = m1"
    using map_zip_maps [of "\<lambda>r v. AList.update ''IVRPath'' v r" "joined_row tbl" "rows call_df" path_of]
    by (simp add: set_column_def m0_def m1_def with_path_def)
  have s2: "set_column ''IVRSelections'' (map selections_of (rows m1)) m1 = m2"
    using map_zip_maps [of "\<lambda>r v. AList.update ''IVRSelections'' v r" with_path "rows call_df"
        "\<lambda>l. selections_of (with_path l)"]
    by (simp add: set_column_def m1_def m2_def with_sel_def comp_def)
  have d: "drop_columns merge_columns m2 =
      \<lparr>columns = add_column ''IVRSelections'' (add_column ''IVRPath'' (columns call_df)),
       rows = map (out_row tbl) (rows call_df)\<rparr>"
    by (simp add: drop_columns_def m2_def cols rows comp_def)
  show ?thesis
    using nonempty
    by (simp add: merge_with_call_data_def Let_def select_merge_columns merged [folded m0_def]
        g s1 s2 d)
qed


lemma filter_notna_opt_cell:
  "filter notna (map opt_cell vs) = map Text (List.map_filter (\<lambda>v. v) vs)"
  by (induction vs) (auto simp: notna_def opt_cell_def List.map_filter_def split: option.splits)

lemma set_choices_alt:
  "set_choices r =
     List.map_filter (\<lambda>v. v)
       [language_choice r, state_choice r, service_choice r, model_choice r, hp_choice r]"
  by (simp add: set_choices_def step_names_def choice_def List.map_filter_def)

lemma selections_of_merge_row:
  "selections_of (merge_row r) =
     (if complete_path r = None then Null else Items (map Text (set_choices r)))"
proof -
  have cells: "row_get (merge_row r) ''complete_path'' = opt_cell (complete_path r)"
    "row_get (merge_row r) ''language_choice'' = opt_cell (language_choice r)"
    "row_get (merge_row r) ''state_choice'' = opt_cell (state_choice r)"
    "row_get (merge_row r) ''service_choice'' = opt_cell (service_choice r)"
    "row_get (merge_row r) ''model_choice'' = opt_cell (model_choice r)"
    "row_get (merge_row r) ''hp_choice'' = opt_cell (hp_choice r)"
    by (simp_all add: merge_row_def merge_columns_def row_get_def path_row_def)
  have "filter notna [opt_cell (language_choice r), opt_cell (state_choice r),
      opt_cell (service_choice r), opt_cell (model_choice r), opt_cell (hp_choice r)] =
      map Text (set_choices r)"
    using filter_notna_opt_cell [of "[language_choice r, state_choice r, service_choice r,
      model_choice r, hp_choice r]"]
    by (simp add: set_choices_alt)
  then show ?thesis
    unfolding selections_of_def cells
    by (simp add: notna_def opt_cell_def split: option.splits)
qed

lemma selections_of_blank_row: "selections_of blank_row = Null"
  by (simp add: selections_of_def blank_row_def merge_columns_def row_get_def notna_def)

lemma selections_of_append:
  assumes "fst ` set l \<inter> set merge_columns = {}"
  shows "selections_of (l @ m) = selections_of m"
proof -
  have same: "row_get (l @ m) c = row_get m c" if "c \<in> set merge_columns" for c
    using that assms by (auto simp: row_get_append)
  have "''complete_path'' \<in> set merge_columns" "''language_choice'' \<in> set merge_columns"
    "''state_choice'' \<in> set merge_columns" "''service_choice'' \<in> set merge_columns"
    "''model_choice'' \<in> set merge_columns" "''hp_choice'' \<in> set merge_columns"
    by (simp_all add: merge_columns_def)
  then show ?thesis
    by (simp add: selections_of_def same)
qed

lemma selections_of_joined_row:
  assumes "fst ` set l \<inter> set merge_columns = {}"
  shows "selections_of (joined_row tbl l) =
     (case matching_path tbl l of
        None \<Rightarrow> Null
      | Some r \<Rightarrow> if complete_path r = None then Null else Items (map Text (set_choices r)))"
  by (simp add: joined_row_def selections_of_append [OF assms] selections_of_blank_row
      selections_of_merge_row split: option.splits)

lemma wf_frame_row:
  assumes "wf_frame f" and "i < length (rows f)"
  shows "map fst (rows f ! i) = columns f"
  using assms by (simp add: wf_frame_def list_all_length)

lemma distinct_update_ivr_path:
  assumes "distinct (map call_sid tbl)"
  shows "distinct (map call_sid (update_ivr_path sid step_name digit_input from_no to_no now tbl))"
proof -
  have keep: "map call_sid (sql_update f sid xs) = map call_sid xs"
    if "\<And>r. call_sid (f r) = call_sid r" for f xs
    using that by (induction xs) (auto simp: sql_update_def)
  show ?thesis
  proof (cases "select_path sid tbl")
    case None
    then have "sid \<notin> call_sid ` set tbl"
      by (simp add: select_path_None_iff)
    then show ?thesis using assms
      by (simp add: update_ivr_path_alt keep None)
  next
    case (Some a)
    show ?thesis using assms
      by (simp add: update_ivr_path_alt keep Some)
  qed
qed

lemma distinct_apply_events:
  "distinct (map call_sid tbl) \<Longrightarrow> distinct (map call_sid (apply_events es tbl))"
  unfolding apply_events_def
  by (induction es arbitrary: tbl) (simp_all add: upsert_step_def distinct_update_ivr_path)

lemmas frame_eval =
  merge_with_call_data_def get_ivr_paths_def path_row_def path_columns_def merge_columns_def
  select_columns_def merge_left_def get_column_def set_column_def drop_columns_def
  selections_of_def row_get_def notna_def add_column_def opt_cell_def

section \<open>The claims\<close>

lemmas store_eval =
  apply_events_def upsert_step_def update_ivr_path_def Let_def select_path_def sql_update_def
  next_id_def clean_digit_def py_strip_def path_expr_def coalesce_def plain_event_def

text \<open>
  C1. In every row of the path table the stored \<open>complete_path\<close> is the join, with the
  delimiter \<open>-\<close>, of the five choices in the order language, state, service, model, hp,
  an unset choice as the empty segment. Any sequence of \<open>update_ivr_path\<close> calls keeps
  this, whatever their step names and digits, on the branch that creates the row and
  on the branch that updates it; the empty table has it, so every table the webhook
  builds has it after every call.
\<close>

theorem complete_path_is_join:
  assumes "\<forall>r\<in>set tbl. complete_path r = Some (join_of_choices r)"
  shows "\<forall>r\<in>set (apply_events es tbl). complete_path r = Some (join_of_choices r)"
  using assms path_invariant_events [of tbl es] by (simp add: path_expr_join)

theorem complete_path_is_join_witness:
  "map complete_path
     (apply_events [plain_event ''CA1'' ''language'' ''1'' 1,
                    plain_event ''CA2'' ''hp'' ''2'' 2,
                    plain_event ''CA1'' ''service'' ''3'' 3] []) =
   [Some ''1--3--'', Some ''----2'']"
proof -
  let ?es = "[plain_event ''CA1'' ''language'' ''1'' 1, plain_event ''CA2'' ''hp'' ''2'' 2,
              plain_event ''CA1'' ''service'' ''3'' 3]"
  have rows: "map join_of_choices (apply_events ?es []) = [''1--3--'', ''----2'']"
    by (simp add: store_eval join_of_choices_def choice_def step_names_def)
  have "\<forall>r\<in>set (apply_events ?es []). complete_path r = Some (join_of_choices r)"
    by (rule complete_path_is_join) simp
  then have "map complete_path (apply_events ?es []) =
      map (\<lambda>r. Some (join_of_choices r)) (apply_events ?es [])"
    by simp
  also have "\<dots> = map Some (map join_of_choices (apply_events ?es []))"
    by simp
  finally show ?thesis
    unfolding rows by simp
qed

text \<open>
  C2. For a call that has an event in the list, the stored \<open>complete_path\<close> after the
  events is the join of the final choices, each at the position of its step: the cleaned
  digit of the last event of the list for that call and step, or the choice the table
  held before when the list has no such event (unset, from the empty table). When no
  two events of the list share call and step, every reordering of the list gives the
  same stored path.
\<close>

theorem order_independent:
  assumes "sid \<in> ev_call_sid ` set es"
  shows "stored_path sid (apply_events es tbl) =
           Some (join ''-'' (map (\<lambda>s. coalesce (final_choice sid s es tbl)) step_names)) \<and>
         (\<forall>es'. mset es' = mset es \<and> distinct (map event_key es) \<longrightarrow>
            stored_path sid (apply_events es' tbl) = stored_path sid (apply_events es tbl))"
proof (intro conjI allI impI)
  show "stored_path sid (apply_events es tbl) =
           Some (join ''-'' (map (\<lambda>s. coalesce (final_choice sid s es tbl)) step_names))"
    using assms by (rule stored_path_events)
next
  fix es'
  assume h: "mset es' = mset es \<and> distinct (map event_key es)"
  then have "set es' = set es" by (metis mset_eq_setD)
  then have "sid \<in> ev_call_sid ` set es'" using assms by simp
  then have "stored_path sid (apply_events es' tbl) =
           Some (join ''-'' (map (\<lambda>s. coalesce (final_choice sid s es' tbl)) step_names))"
    by (rule stored_path_events)
  moreover have "final_choice sid s es' tbl = final_choice sid s es tbl" for s
    using h supplied_perm [of es es' sid s] by (simp add: final_choice_def)
  ultimately show "stored_path sid (apply_events es' tbl) = stored_path sid (apply_events es tbl)"
    using stored_path_events [OF assms, of tbl] by simp
qed

theorem order_independent_witness:
  "stored_path ''CA1''
     (apply_events [plain_event ''CA1'' ''service'' ''3'' 1,
                    plain_event ''CA1'' ''language'' ''1'' 2] []) = Some ''1--3--'' \<and>
   stored_path ''CA1''
     (apply_events [plain_event ''CA1'' ''language'' ''1'' 2,
                    plain_event ''CA1'' ''service'' ''3'' 1] []) = Some ''1--3--''"
proof -
  let ?a = "plain_event ''CA1'' ''service'' ''3'' 1"
  let ?b = "plain_event ''CA1'' ''language'' ''1'' 2"
  have member: "''CA1'' \<in> ev_call_sid ` set [?a, ?b]"
    by (simp add: plain_event_def)
  have keys: "mset [?b, ?a] = mset [?a, ?b] \<and> distinct (map event_key [?a, ?b])"
    by (simp add: plain_event_def event_key_def)
  have final: "map (\<lambda>s. coalesce (final_choice ''CA1'' s [?a, ?b] [])) step_names =
      [''1'', [], ''3'', [], []]"
    by (simp add: final_choice_def supplied_def stored_choice_def select_path_def step_names_def
        plain_event_def clean_digit_def py_strip_def coalesce_def)
  from order_independent [OF member, of "[]"] keys final show ?thesis
    by simp
qed

text \<open>
  C3. For a call whose events set language, state and service to \<open>"1"\<close> and nothing
  else, the webhook stores the \<open>complete_path\<close> \<open>"1-1-1--"\<close>, as the claim says. The
  label the claim gives for this record, \<open>Hindi\<close>, \<open>Rajasthan\<close>, \<open>Sell Machine\<close>, is what
  \<open>get_ivr_label\<close> returns for the path \<open>"1-1-1"\<close> that joins only the digits chosen, the
  form of the dashboard's sample paths. On the stored path the decoder departs from
  it: its length tests pass on the two empty segments that the webhook always writes,
  and it returns a fourth token, \<open>Model-\<close>, for a model that was never chosen.
\<close>

theorem three_choices_label_defect:
  "stored_path ''CA1''
     (apply_events [plain_event ''CA1'' ''language'' ''1'' 1,
                    plain_event ''CA1'' ''state'' ''1'' 2,
                    plain_event ''CA1'' ''service'' ''1'' 3] []) = Some ''1-1-1--'' \<and>
   get_ivr_label
     (stored_path ''CA1''
        (apply_events [plain_event ''CA1'' ''language'' ''1'' 1,
                       plain_event ''CA1'' ''state'' ''1'' 2,
                       plain_event ''CA1'' ''service'' ''1'' 3] [])) =
     join arrow [''Hindi'', ''Rajasthan'', ''Sell Machine'', ''Model-''] \<and>
   get_ivr_label (Some ''1-1-1--'') \<noteq> join arrow [''Hindi'', ''Rajasthan'', ''Sell Machine''] \<and>
   get_ivr_label (Some (join ''-'' [''1'', ''1'', ''1''])) =
     join arrow [''Hindi'', ''Rajasthan'', ''Sell Machine'']"
proof -
  have path: "stored_path ''CA1''
     (apply_events [plain_event ''CA1'' ''language'' ''1'' 1,
                    plain_event ''CA1'' ''state'' ''1'' 2,
                    plain_event ''CA1'' ''service'' ''1'' 3] []) = Some ''1-1-1--''"
    by (simp add: store_eval stored_path_def)
  have stored: "get_ivr_label (Some ''1-1-1--'') =
      join arrow [''Hindi'', ''Rajasthan'', ''Sell Machine'', ''Model-'']"
    by (simp add: get_ivr_label_def ivr_labels_def dict_get_def Let_def)
  have chosen: "get_ivr_label (Some (join ''-'' [''1'', ''1'', ''1''])) =
      join arrow [''Hindi'', ''Rajasthan'', ''Sell Machine'']"
    by (simp add: get_ivr_label_def ivr_labels_def dict_get_def Let_def)
  have differ: "join arrow [''Hindi'', ''Rajasthan'', ''Sell Machine'', ''Model-''] \<noteq>
      join arrow [''Hindi'', ''Rajasthan'', ''Sell Machine'']"
    by (simp add: arrow_def)
  show ?thesis
    unfolding path using stored chosen differ by simp
qed

text \<open>
  C4. The claim's own example, language and model set and state unset, is stored by
  the webhook as \<open>"1---1-"\<close>. The path has one non-empty leading segment, so the claim
  expects the label to end after the language token \<open>Hindi\<close>. \<open>get_ivr_label\<close> splits the
  path and tests only the number of segments, never whether a segment is empty: on this
  path it returns three tokens, with \<open>State-\<close> and \<open>Service-\<close> for the two steps that
  were never chosen. A path that holds only the digit chosen, \<open>"1"\<close>, does decode to the
  one token. This is the defect of C3 at another input.
\<close>

theorem empty_segment_label_defect:
  "stored_path ''CA1''
     (apply_events [plain_event ''CA1'' ''language'' ''1'' 1,
                    plain_event ''CA1'' ''model'' ''1'' 2] []) = Some ''1---1-'' \<and>
   leading_nonempty (py_split (CHR ''-'') ''1---1-'') = 1 \<and>
   length (ivr_labels (py_split (CHR ''-'') ''1---1-'')) = 3 \<and>
   get_ivr_label
     (stored_path ''CA1''
        (apply_events [plain_event ''CA1'' ''language'' ''1'' 1,
                       plain_event ''CA1'' ''model'' ''1'' 2] [])) =
     join arrow [''Hindi'', ''State-'', ''Service-''] \<and>
   get_ivr_label (Some ''1---1-'') \<noteq> join arrow [''Hindi''] \<and>
   get_ivr_label (Some ''1'') = join arrow [''Hindi'']"
proof -
  have path: "stored_path ''CA1''
     (apply_events [plain_event ''CA1'' ''language'' ''1'' 1,
                    plain_event ''CA1'' ''model'' ''1'' 2] []) = Some ''1---1-''"
    by (simp add: store_eval stored_path_def)
  have parts: "py_split (CHR ''-'') ''1---1-'' = [''1'', [], [], ''1'', []]"
    by simp
  have tokens: "ivr_labels [''1'', [], [], ''1'', []] = [''Hindi'', ''State-'', ''Service-'']"
    by (simp add: ivr_labels_def dict_get_def Let_def)
  have label: "get_ivr_label (Some ''1---1-'') = join arrow [''Hindi'', ''State-'', ''Service-'']"
    unfolding get_ivr_label_def using parts tokens by simp
  have short: "get_ivr_label (Some ''1'') = join arrow [''Hindi'']"
    by (simp add: get_ivr_label_def ivr_labels_def dict_get_def Let_def)
  have leading: "leading_nonempty [''1'', [], [], ''1'', []] = 1"
    by (simp add: leading_nonempty_def)
  show ?thesis
    unfolding path parts tokens label using leading short by (simp add: arrow_def)
qed

text \<open>
  C5, as the code has it. Neither the handler nor \<open>update_ivr_path\<close> checks the step
  name. A request with a call id and a step name outside the five is answered with the
  success body and status 200; one row is appended to the event log; and the path
  table gets a new row for the call with all five choices unset and \<open>complete_path\<close>
  \<open>"----"\<close> when the call had none, or else keeps the call's choices and only recomputes
  its \<open>complete_path\<close> from them.
\<close>

theorem unknown_step_persisted:
  assumes "step_name \<notin> set step_names"
    and "py_or (args req ''CallSid'') (form req ''CallSid'') = Some sid" and "sid \<noteq> []"
  shows "ivr_webhook step_name req now_input now_path st =
    (\<lparr>ivr_inputs = ivr_inputs st @
        [\<lparr>in_id = Suc (fold max (map in_id (ivr_inputs st)) 0), in_call_sid = sid,
          in_from_number = py_or (args req ''From'') (form req ''From''),
          in_to_number = py_or (args req ''To'') (form req ''To''),
          in_step_name = step_name,
          in_digit_input = clean_digit (py_or (args req ''digits'') (form req ''digits'')),
          in_timestamp = now_input,
          in_exophone = py_or (args req ''To'') (form req ''To''),
          in_caller_circle = py_or (args req ''CallerCircle'') (form req ''CallerCircle'')\<rparr>],
      ivr_paths =
        (case select_path sid (ivr_paths st) of
           None \<Rightarrow>
             ivr_paths st @
             [\<lparr>row_id = next_id (ivr_paths st), call_sid = sid,
               from_number = py_or (args req ''From'') (form req ''From''),
               to_number = py_or (args req ''To'') (form req ''To''),
               language_choice = None, state_choice = None, service_choice = None,
               model_choice = None, hp_choice = None,
               complete_path = Some ''----'', timestamp = now_path\<rparr>]
         | Some _ \<Rightarrow>
             sql_update (\<lambda>r. r\<lparr>complete_path := Some (path_expr r)\<rparr>) sid (ivr_paths st))\<rparr>,
     RecordedBody (''IVR input recorded for '' @ step_name) sid
       (py_or (args req ''digits'') (form req ''digits'')), 200)"
proof -
  have upd: "update_ivr_path sid step_name d f t now tbl =
      (case select_path sid tbl of
         None \<Rightarrow>
           tbl @ [\<lparr>row_id = next_id tbl, call_sid = sid, from_number = f, to_number = t,
               language_choice = None, state_choice = None, service_choice = None,
               model_choice = None, hp_choice = None,
               complete_path = Some ''----'', timestamp = now\<rparr>]
       | Some _ \<Rightarrow> sql_update (\<lambda>r. r\<lparr>complete_path := Some (path_expr r)\<rparr>) sid tbl)"
    for d f t now tbl
  proof (cases "select_path sid tbl")
    case None
    then show ?thesis using assms(1)
      by (simp add: update_ivr_path_def step_names_def sql_update_append sql_update_absent)
         (simp add: sql_update_def path_expr_def coalesce_def)
  next
    case (Some a)
    then show ?thesis using assms(1)
      by (simp add: update_ivr_path_def step_names_def)
  qed
  show ?thesis
    using assms(2,3) by (cases st) (simp add: ivr_webhook_def Let_def store_ivr_input_def upd split: option.split)
qed

theorem unknown_step_persisted_witness:
  "fst (ivr_webhook ''colour''
          \<lparr>args = [''CallSid'' \<mapsto> ''CA1''], form = Map.empty\<rparr> 10 11
          \<lparr>ivr_inputs = [], ivr_paths = []\<rparr>) =
   \<lparr>ivr_inputs =
      [\<lparr>in_id = 1, in_call_sid = ''CA1'', in_from_number = None, in_to_number = None,
        in_step_name = ''colour'', in_digit_input = None, in_timestamp = 10,
        in_exophone = None, in_caller_circle = None\<rparr>],
    ivr_paths =
      [\<lparr>row_id = 1, call_sid = ''CA1'', from_number = None, to_number = None,
        language_choice = None, state_choice = None, service_choice = None,
        model_choice = None, hp_choice = None, complete_path = Some ''----'',
        timestamp = 11\<rparr>]\<rparr>"
proof -
  let ?req = "\<lparr>args = [''CallSid'' \<mapsto> ''CA1''], form = Map.empty\<rparr>"
  have step: "''colour'' \<notin> set step_names"
    by (simp add: step_names_def)
  have sid: "py_or (args ?req ''CallSid'') (form ?req ''CallSid'') = Some ''CA1''"
    by (simp add: py_or_def)
  have ne: "''CA1'' \<noteq> []"
    by simp
  show ?thesis
    by (simp add: unknown_step_persisted [OF step sid ne] py_or_def clean_digit_def
        select_path_def next_id_def)
qed

text \<open>
  C5 as stated fails: the step name \<open>colour\<close> on the empty store is answered with
  success, and both tables hold a row afterwards.
\<close>

theorem unknown_step_counterexample:
  "ivr_webhook ''colour'' \<lparr>args = [''CallSid'' \<mapsto> ''CA1'', ''digits'' \<mapsto> ''7''], form = Map.empty\<rparr> 10 11
     \<lparr>ivr_inputs = [], ivr_paths = []\<rparr> =
   (\<lparr>ivr_inputs =
       [\<lparr>in_id = 1, in_call_sid = ''CA1'', in_from_number = None, in_to_number = None,
         in_step_name = ''colour'', in_digit_input = Some ''7'', in_timestamp = 10,
         in_exophone = None, in_caller_circle = None\<rparr>],
      ivr_paths =
       [\<lparr>row_id = 1, call_sid = ''CA1'', from_number = None, to_number = None,
         language_choice = None, state_choice = None, service_choice = None,
         model_choice = None, hp_choice = None, complete_path = Some ''----'',
         timestamp = 11\<rparr>]\<rparr>,
    RecordedBody ''IVR input recorded for colour'' ''CA1'' (Some ''7''), 200)"
  by (simp add: ivr_webhook_def Let_def py_or_def store_ivr_input_def update_ivr_path_def select_path_def
      sql_update_def path_expr_def coalesce_def clean_digit_def py_strip_def next_id_def)

text \<open>
  C6. A request that carries no \<open>CallSid\<close>, neither in the query string nor in the form
  body, is answered with the error body \<open>CallSid is required\<close> and status 400, and the
  store it returns is the store it was given: neither table is touched.
\<close>

theorem missing_call_sid_rejected:
  assumes "args req ''CallSid'' = None" and "form req ''CallSid'' = None"
  shows "ivr_webhook step_name req now_input now_path st = (st, ErrorBody ''CallSid is required'', 400)"
  using assms by (simp add: ivr_webhook_def py_or_def)

theorem missing_call_sid_rejected_witness:
  "ivr_webhook ''language'' \<lparr>args = [''digits'' \<mapsto> ''1''], form = Map.empty\<rparr> 5 5
     \<lparr>ivr_inputs = [], ivr_paths = []\<rparr> =
   (\<lparr>ivr_inputs = [], ivr_paths = []\<rparr>, ErrorBody ''CallSid is required'', 400)"
  using missing_call_sid_rejected [of "\<lparr>args = [''digits'' \<mapsto> ''1''], form = Map.empty\<rparr>" "''language''" 5 5
      "\<lparr>ivr_inputs = [], ivr_paths = []\<rparr>"]
  by simp

text \<open>
  C7. Applying a step event a second time, at any later clock reading, leaves the path
  table as the first application left it: every row, with all its choices and its
  \<open>complete_path\<close>. This holds for every table and every event.
\<close>

theorem upsert_twice:
  "upsert_step (e\<lparr>ev_time := t'\<rparr>) (upsert_step e tbl) = upsert_step e tbl"
proof (cases "select_path (ev_call_sid e) tbl")
  case None
  then show ?thesis
    by (simp add: upsert_step_def update_ivr_path_alt select_path_sql_update select_path_append
        sql_update_append sql_update_absent sql_update_def [of _ _ "[_]"] set_choice_recompute)
next
  case (Some a)
  then show ?thesis
    by (simp add: upsert_step_def update_ivr_path_alt select_path_sql_update
        sql_update_comp set_choice_recompute)
qed

text \<open>
  C8, as the code has it. Let the call frame be well formed, have a \<open>CallSid\<close> column
  whose cells are strings or missing and no column named like the seven path columns
  the merge brings in, and let the path table have one row per call id. Then the merge succeeds, and the \<open>IVRSelections\<close> cell
  of a call row is missing when no path record matches the call, and for a matched
  call whose record has a \<open>complete_path\<close> (every record the webhook writes has one) it
  is the list of the choices that are set, that is not \<open>NULL\<close>, in step order: the empty
  list when all five are unset, and with an empty string as an element when a choice
  is set to the empty string.
\<close>

theorem selections_absent_or_set_choices:
  assumes wf: "wf_frame call_df"
    and key: "''CallSid'' \<in> set (columns call_df)"
    and noclash: "set (columns call_df) \<inter> set merge_columns = {}"
    and keys: "string_keys call_df"
    and uniq: "distinct (map call_sid tbl)"
    and i: "i < length (rows call_df)"
  shows "\<exists>out. merge_with_call_data tbl call_df = Inr out \<and>
           row_get (rows out ! i) ''IVRSelections'' =
             (case matching_path tbl (rows call_df ! i) of
                None \<Rightarrow> Null
              | Some r \<Rightarrow>
                  if complete_path r = None then Null else Items (map Text (set_choices r)))"
proof -
  let ?l = "rows call_df ! i"
  have "map fst ?l = columns call_df"
    using wf i by (rule wf_frame_row)
  then have "fst ` set ?l = set (columns call_df)" by (metis set_map)
  then have disj: "fst ` set ?l \<inter> set merge_columns = {}" using noclash by simp
  have "row_get (out_row tbl ?l) ''IVRSelections'' = selections_of (joined_row tbl ?l)"
    by (simp add: out_row_def row_get_update)
  then show ?thesis
    using i by (simp add: merge_with_call_data_rows [OF wf key noclash uniq]
        selections_of_joined_row [OF disj])
qed

theorem selections_absent_or_set_choices_witness:
  "\<exists>out. merge_with_call_data
            (apply_events [plain_event ''CA1'' ''language'' ''1'' 1,
                           plain_event ''CA2'' ''colour'' ''7'' 2] [])
            \<lparr>columns = [''CallSid'', ''Status''],
             rows = [[(''CallSid'', Text ''CA1''), (''Status'', Text ''completed'')],
                     [(''CallSid'', Text ''CA9''), (''Status'', Text ''busy'')],
                     [(''CallSid'', Text ''CA2''), (''Status'', Text ''failed'')]]\<rparr> = Inr out \<and>
          row_get (rows out ! 2) ''IVRSelections'' = Items []"
proof -
  let ?tbl = "apply_events [plain_event ''CA1'' ''language'' ''1'' 1,
                            plain_event ''CA2'' ''colour'' ''7'' 2] []"
  let ?df = "\<lparr>columns = [''CallSid'', ''Status''],
             rows = [[(''CallSid'', Text ''CA1''), (''Status'', Text ''completed'')],
                     [(''CallSid'', Text ''CA9''), (''Status'', Text ''busy'')],
                     [(''CallSid'', Text ''CA2''), (''Status'', Text ''failed'')]]\<rparr>"
  have wf: "wf_frame ?df"
    by (simp add: wf_frame_def)
  have key: "''CallSid'' \<in> set (columns ?df)"
    by simp
  have noclash: "set (columns ?df) \<inter> set merge_columns = {}"
    by (simp add: merge_columns_def)
  have keys: "string_keys ?df"
    by (simp add: string_keys_def row_get_def)
  have uniq: "distinct (map call_sid ?tbl)"
    by (simp add: distinct_apply_events)
  have i: "2 < length (rows ?df)"
    by simp
  have tbl: "?tbl =
      [\<lparr>row_id = 1, call_sid = ''CA1'', from_number = None, to_number = None,
        language_choice = Some ''1'', state_choice = None, service_choice = None,
        model_choice = None, hp_choice = None, complete_path = Some ''1----'',
        timestamp = 1\<rparr>,
       \<lparr>row_id = 2, call_sid = ''CA2'', from_number = None, to_number = None,
        language_choice = None, state_choice = None, service_choice = None,
        model_choice = None, hp_choice = None, complete_path = Some ''----'',
        timestamp = 2\<rparr>]"
    by (simp add: store_eval)
  have sel: "(case matching_path ?tbl (rows ?df ! 2) of
                None \<Rightarrow> Null
              | Some r \<Rightarrow>
                  if complete_path r = None then Null else Items (map Text (set_choices r))) =
      Items []"
    unfolding tbl
    by (simp add: matching_path_def row_get_def select_path_def set_choices_def step_names_def
        choice_def List.map_filter_def)
  from selections_absent_or_set_choices [OF wf key noclash keys uniq i] show ?thesis
    unfolding sel .
qed

text \<open>
  C8 as stated fails in its general part. The digits \<open>""\<close> (two quote characters) are
  truthy, so they are cleaned to the empty string and stored as the language choice;
  the merged call then has the selections \<open>[""]\<close>, an empty value, while the record
  has no non-empty choice value.
\<close>

theorem selections_counterexample:
  "merge_with_call_data
     (apply_events [plain_event ''CA1'' ''language'' [CHR 0x22, CHR 0x22] 1] [])
     \<lparr>columns = [''CallSid''], rows = [[(''CallSid'', Text ''CA1'')]]\<rparr> =
   Inr \<lparr>columns = [''CallSid'', ''IVRPath'', ''IVRSelections''],
        rows = [[(''CallSid'', Text ''CA1''), (''IVRPath'', Text ''----''),
                 (''IVRSelections'', Items [Text []])]]\<rparr> \<and>
   map nonempty_choices
     (apply_events [plain_event ''CA1'' ''language'' [CHR 0x22, CHR 0x22] 1] []) = [[]]"
  by (simp add: store_eval frame_eval nonempty_choices_def choice_def step_names_def)

text \<open>
  C9, as the code has it. The table has no \<open>updated_at\<close> column; its \<open>timestamp\<close> takes
  the clock reading when the row is inserted and no \<open>UPDATE\<close> of \<open>update_ivr_path\<close>
  writes it. After a call, the row of that call id carries the time of this call when
  the call created the row, and the time it carried before when the row existed.
\<close>

theorem timestamp_set_on_create_only:
  "map_option timestamp
     (select_path sid (update_ivr_path sid step_name digit_input from_no to_no now tbl)) =
   Some (case select_path sid tbl of None \<Rightarrow> now | Some r \<Rightarrow> timestamp r)"
  by (simp add: select_path_update_ivr_path recompute_def set_choice_def new_row_def
      split: option.splits)

text \<open>
  C9 as stated fails: a language event at time 100 creates the row, a state event at
  time 200 updates it, and the row's timestamp is still 100.
\<close>

theorem timestamp_counterexample:
  "map timestamp
     (apply_events [plain_event ''CA1'' ''language'' ''1'' 100,
                    plain_event ''CA1'' ''state'' ''2'' 200] []) = [100] \<and>
   (100::nat) \<noteq> 200"
  by (simp add: store_eval)

text \<open>
  C10, as the code has it. Under the same conditions on the call frame and the path
  table, the merge returns one row per call row, in the same order; every cell in a
  column other than \<open>IVRPath\<close> and \<open>IVRSelections\<close> is the cell of the call row; and the
  columns of the result are those of the call frame with \<open>IVRPath\<close> and \<open>IVRSelections\<close>
  set: appended as the last columns when the call frame lacks them, overwritten where
  they stand when it has them.
\<close>

theorem merge_keeps_call_rows:
  assumes wf: "wf_frame call_df"
    and key: "''CallSid'' \<in> set (columns call_df)"
    and noclash: "set (columns call_df) \<inter> set merge_columns = {}"
    and keys: "string_keys call_df"
    and uniq: "distinct (map call_sid tbl)"
  shows "\<exists>out. merge_with_call_data tbl call_df = Inr out \<and>
           length (rows out) = length (rows call_df) \<and>
           columns out = add_column ''IVRSelections'' (add_column ''IVRPath'' (columns call_df)) \<and>
           (\<forall>i<length (rows call_df).
              map fst (rows out ! i) = columns out \<and>
              (\<forall>c. c \<noteq> ''IVRPath'' \<and> c \<noteq> ''IVRSelections'' \<longrightarrow>
                 row_get (rows out ! i) c = row_get (rows call_df ! i) c))"
proof -
  have labels: "map fst (out_row tbl (rows call_df ! i)) =
      add_column ''IVRSelections'' (add_column ''IVRPath'' (columns call_df))"
    if "i < length (rows call_df)" for i
    using wf_frame_row [OF wf that] by (simp add: out_row_def update_keys add_column_def)
  have cells: "row_get (out_row tbl l) c = row_get l c"
    if "c \<noteq> ''IVRPath'' \<and> c \<noteq> ''IVRSelections''" for l c
    using that by (simp add: out_row_def row_get_update)
  show ?thesis
    by (simp add: merge_with_call_data_rows [OF wf key noclash uniq] labels cells)
qed

theorem merge_keeps_call_rows_witness:
  "\<exists>out. merge_with_call_data
            (apply_events [plain_event ''CA1'' ''language'' ''1'' 1,
                           plain_event ''CA2'' ''colour'' ''7'' 2] [])
            \<lparr>columns = [''CallSid'', ''Status''],
             rows = [[(''CallSid'', Text ''CA1''), (''Status'', Text ''completed'')],
                     [(''CallSid'', Text ''CA9''), (''Status'', Text ''busy'')],
                     [(''CallSid'', Text ''CA2''), (''Status'', Text ''failed'')]]\<rparr> = Inr out \<and>
          length (rows out) = 3 \<and>
          columns out = [''CallSid'', ''Status'', ''IVRPath'', ''IVRSelections'']"
proof -
  let ?tbl = "apply_events [plain_event ''CA1'' ''language'' ''1'' 1,
                            plain_event ''CA2'' ''colour'' ''7'' 2] []"
  let ?df = "\<lparr>columns = [''CallSid'', ''Status''],
             rows = [[(''CallSid'', Text ''CA1''), (''Status'', Text ''completed'')],
                     [(''CallSid'', Text ''CA9''), (''Status'', Text ''busy'')],
                     [(''CallSid'', Text ''CA2''), (''Status'', Text ''failed'')]]\<rparr>"
  have wf: "wf_frame ?df"
    by (simp add: wf_frame_def)
  have key: "''CallSid'' \<in> set (columns ?df)"
    by simp
  have noclash: "set (columns ?df) \<inter> set merge_columns = {}"
    by (simp add: merge_columns_def)
  have keys: "string_keys ?df"
    by (simp add: string_keys_def row_get_def)
  have uniq: "distinct (map call_sid ?tbl)"
    by (simp add: distinct_apply_events)
  from merge_keeps_call_rows [OF wf key noclash keys uniq] obtain out where
    out: "merge_with_call_data ?tbl ?df = Inr out" "length (rows out) = length (rows ?df)"
      "columns out = add_column ''IVRSelections'' (add_column ''IVRPath'' (columns ?df))"
    by blast
  from out(2) have "length (rows out) = 3"
    by simp
  moreover from out(3) have "columns out = [''CallSid'', ''Status'', ''IVRPath'', ''IVRSelections'']"
    by (simp add: add_column_def)
  ultimately show ?thesis
    using out(1) by blast
qed

text \<open>
  C10 as stated fails. The frames the dashboard passes to the merge already carry the
  columns \<open>IVRPath\<close> and \<open>IVRSelections\<close>, filled with missing values; for such a frame
  the merge adds no column and changes the values of these two.
\<close>

theorem merge_overwrites_counterexample:
  "merge_with_call_data
     (apply_events [plain_event ''CA1'' ''language'' ''1'' 1] [])
     \<lparr>columns = [''CallSid'', ''IVRPath'', ''IVRSelections''],
      rows = [[(''CallSid'', Text ''CA1''), (''IVRPath'', Null), (''IVRSelections'', Null)]]\<rparr> =
   Inr \<lparr>columns = [''CallSid'', ''IVRPath'', ''IVRSelections''],
        rows = [[(''CallSid'', Text ''CA1''), (''IVRPath'', Text ''1----''),
                 (''IVRSelections'', Items [Text ''1''])]]\<rparr>"
  by (simp add: store_eval frame_eval)


end
